theory Spec2Isabelle
  imports Complex_Main
begin

section \<open>Python values used by tools/ingestion.py\<close>

text \<open>
  A Python \<open>str\<close> is a sequence of Unicode code points, so a string is a list of
  code points (natural numbers); \<open>py\<close> turns an ASCII literal into such a string.
\<close>

type_synonym pystr = "nat list"

definition py :: "string \<Rightarrow> pystr" where
  "py s = map of_char s"

text \<open>
  Exceptions, all of them subclasses of \<open>Exception\<close>, each with the text that
  \<open>str(e)\<close> yields. \<open>HttpError\<close> is the class that \<open>ingest_from_gdrive\<close> handles
  separately; \<open>OtherException\<close> stands for whatever an external library raises.
\<close>

datatype py_exception =
  ValueError pystr | IndexError pystr | HttpError pystr | OtherException pystr

fun exc_str :: "py_exception \<Rightarrow> pystr" where
  "exc_str (ValueError m) = m"
| "exc_str (IndexError m) = m"
| "exc_str (HttpError m) = m"
| "exc_str (OtherException m) = m"

text \<open>
  The characters that \<open>str.split()\<close> without a separator treats as whitespace
  (the code points for which \<open>str.isspace\<close> holds).
\<close>

definition py_isspace :: "nat \<Rightarrow> bool" where
  "py_isspace c \<longleftrightarrow>
     (9 \<le> c \<and> c \<le> 13) \<or> (28 \<le> c \<and> c \<le> 32) \<or> c = 133 \<or> c = 160 \<or> c = 5760 \<or>
     (8192 \<le> c \<and> c \<le> 8202) \<or> c = 8232 \<or> c = 8233 \<or> c = 8239 \<or> c = 8287 \<or> c = 12288"

text \<open>
  \<open>text.split()\<close>: runs of whitespace separate the words, and no empty word is
  produced. \<open>split_ws w cs\<close> scans \<open>cs\<close> with the word \<open>w\<close> read so far.
\<close>

fun split_ws :: "pystr \<Rightarrow> pystr \<Rightarrow> pystr list" where
  "split_ws w [] = (if w = [] then [] else [w])"
| "split_ws w (c # cs) =
     (if py_isspace c then (if w = [] then split_ws [] cs else w # split_ws [] cs)
      else split_ws (w @ [c]) cs)"

definition py_split :: "pystr \<Rightarrow> pystr list" where
  "py_split text = split_ws [] text"

text \<open>\<open>sep.join(xs)\<close>.\<close>

fun py_join :: "pystr \<Rightarrow> pystr list \<Rightarrow> pystr" where
  "py_join sep [] = []"
| "py_join sep [x] = x"
| "py_join sep (x # y # ys) = x @ sep @ py_join sep (y # ys)"

text \<open>
  \<open>xs[i:j]\<close>: a negative bound counts from the end, and both bounds are clamped to
  the list.
\<close>

definition slice_bound :: "nat \<Rightarrow> int \<Rightarrow> nat" where
  "slice_bound n i = (if i < 0 then nat (int n + i) else min n (nat i))"

definition py_slice :: "'a list \<Rightarrow> int \<Rightarrow> int \<Rightarrow> 'a list" where
  "py_slice xs i j =
     (let lo = slice_bound (length xs) i; hi = slice_bound (length xs) j
      in take (hi - lo) (drop lo xs))"

text \<open>
  The values that \<open>range(start, stop, step)\<close> yields for a step other than zero;
  \<open>range\<close> itself raises \<open>ValueError\<close> when the step is zero.
\<close>

function range_from :: "int \<Rightarrow> int \<Rightarrow> int \<Rightarrow> int list" where
  "range_from start stop step =
     (if 0 < step \<and> start < stop then start # range_from (start + step) stop step
      else if step < 0 \<and> stop < start then start # range_from (start + step) stop step
      else [])"
  by pat_completeness auto
termination
  by (relation "measure (\<lambda>(start, stop, step).
        nat (if 0 < step then stop - start else start - stop))") auto

declare range_from.simps [simp del]

definition py_range :: "int \<Rightarrow> int \<Rightarrow> int \<Rightarrow> py_exception + int list" where
  "py_range start stop step =
     (if step = 0 then Inl (ValueError (py ''range() arg 3 must not be zero''))
      else Inr (range_from start stop step))"

section \<open>The chunker\<close>

definition CHUNK_SIZE :: int where
  "CHUNK_SIZE = 300"

text \<open>
  \<open>split_text\<close>: the words of the text, grouped \<open>sz\<close> (the parameter \<open>size\<close>) at
  a time and joined with a single space.
\<close>

definition split_text :: "pystr \<Rightarrow> int \<Rightarrow> py_exception + pystr list" where
  "split_text text sz =
     (let words = py_split text in
      case py_range 0 (int (length words)) sz of
        Inl e \<Rightarrow> Inl e
      | Inr starts \<Rightarrow> Inr (map (\<lambda>i. py_join (py '' '') (py_slice words i (i + sz))) starts))"

text \<open>The number of chunks that \<open>n\<close> words give at chunk size \<open>sz\<close>.\<close>

definition n_chunks :: "nat \<Rightarrow> int \<Rightarrow> nat" where
  "n_chunks n sz = nat ((int n + sz - 1) div sz)"

text \<open>A word: a non-empty string without whitespace.\<close>

definition is_word :: "pystr \<Rightarrow> bool" where
  "is_word t \<longleftrightarrow> t \<noteq> [] \<and> (\<forall>c\<in>set t. \<not> py_isspace c)"

section \<open>The store and its external collaborators\<close>

text \<open>
  An embedding vector is a row of floating-point numbers, read here as real numbers.
  \<open>doc_embeddings\<close> starts as the Python list \<open>[]\<close> and becomes the array that
  \<open>model.encode\<close> returns, given by its rows.
\<close>

type_synonym vec = "real list"

datatype embeddings = PyList | NdArray "vec list"

fun is_ndarray :: "embeddings \<Rightarrow> bool" where
  "is_ndarray PyList = False"
| "is_ndarray (NdArray Y) = True"

fun nd_rows :: "embeddings \<Rightarrow> vec list" where
  "nd_rows PyList = []"
| "nd_rows (NdArray Y) = Y"

text \<open>\<open>.size\<close>: the number of elements of the array.\<close>

definition nd_size :: "embeddings \<Rightarrow> nat" where
  "nd_size e = sum_list (map length (nd_rows e))"

record store =
  doc_chunks :: "pystr list"
  doc_embeddings :: embeddings

definition init_store :: store where
  "init_store = \<lparr>doc_chunks = [], doc_embeddings = PyList\<rparr>"

text \<open>
  What the module calls and does not define: the embedding model, NumPy's
  \<open>argsort\<close>, the PDF reader (the pages of a file, each with the outcome of
  \<open>extract_text\<close>), the web page (the texts of its \<open>p\<close> elements), the transcript
  service (the \<open>text\<close> entries of a transcript) and Google Drive (credentials and
  service, the files of a MIME type as pairs of id and name, the exported and
  decoded content of a file). Each one either returns or raises.
\<close>

type_synonym file_obj = "nat list"

record env =
  encode :: "pystr list \<Rightarrow> py_exception + vec list"
  argsort :: "real list \<Rightarrow> nat list"
  pdf_reader :: "file_obj \<Rightarrow> py_exception + (py_exception + pystr option) list"
  fetch_paragraphs :: "pystr \<Rightarrow> py_exception + pystr list"
  get_transcript :: "pystr \<Rightarrow> py_exception + pystr list"
  google_service :: "py_exception + unit"
  drive_list :: "pystr \<Rightarrow> py_exception + (pystr \<times> pystr) list"
  drive_export :: "pystr \<Rightarrow> py_exception + pystr"

text \<open>\<open>str(n)\<close> for a length.\<close>

function str_nat :: "nat \<Rightarrow> pystr" where
  "str_nat n = (if n < 10 then [48 + n] else str_nat (n div 10) @ [48 + n mod 10])"
  by pat_completeness auto
termination
  by (relation "measure id") auto

declare str_nat.simps [simp del]

section \<open>Ingestion\<close>

text \<open>
  The two assignments that every entry point makes once it has its text: first
  \<open>doc_chunks\<close>, then \<open>doc_embeddings\<close>. The result is the store as the statements
  leave it, with the exception if one of them raised.
\<close>

definition chunk_and_embed :: "env \<Rightarrow> store \<Rightarrow> pystr \<Rightarrow> store \<times> (py_exception + unit)" where
  "chunk_and_embed env s text =
     (case split_text text CHUNK_SIZE of
        Inl e \<Rightarrow> (s, Inl e)
      | Inr chunks \<Rightarrow>
          (let s1 = s\<lparr>doc_chunks := chunks\<rparr> in
           case encode env chunks of
             Inl e \<Rightarrow> (s1, Inl e)
           | Inr vectors \<Rightarrow> (s1\<lparr>doc_embeddings := NdArray vectors\<rparr>, Inr ())))"

text \<open>
  \<open>try: ... except Exception as e: return handler(e)\<close>: the value returned in
  either case, the store as the body left it.
\<close>

definition try_except ::
  "store \<times> (py_exception + pystr) \<Rightarrow> (py_exception \<Rightarrow> pystr) \<Rightarrow> store \<times> (py_exception + pystr)" where
  "try_except r handler =
     (case r of (s, Inl e) \<Rightarrow> (s, Inr (handler e)) | (s, Inr v) \<Rightarrow> (s, Inr v))"

definition check_mark :: pystr where
  "check_mark = [9989]"

definition cross_mark :: pystr where
  "cross_mark = [10060]"

fun extract_pages :: "(py_exception + pystr option) list \<Rightarrow> py_exception + pystr list" where
  "extract_pages [] = Inr []"
| "extract_pages (page # pages) =
     (case page of
        Inl e \<Rightarrow> Inl e
      | Inr t \<Rightarrow>
          (case extract_pages pages of
             Inl e \<Rightarrow> Inl e
           | Inr ts \<Rightarrow> Inr ((case t of None \<Rightarrow> [] | Some x \<Rightarrow> x) # ts)))"

definition extract_pdf_text :: "env \<Rightarrow> file_obj \<Rightarrow> py_exception + pystr" where
  "extract_pdf_text env file =
     (case pdf_reader env file of
        Inl e \<Rightarrow> Inl e
      | Inr pages \<Rightarrow>
          (case extract_pages pages of
             Inl e \<Rightarrow> Inl e
           | Inr ts \<Rightarrow> Inr (py_join [10] ts)))"

definition ingest_from_pdf_body :: "env \<Rightarrow> store \<Rightarrow> file_obj \<Rightarrow> store \<times> (py_exception + pystr)" where
  "ingest_from_pdf_body env s file =
     (case extract_pdf_text env file of
        Inl e \<Rightarrow> (s, Inl e)
      | Inr text \<Rightarrow>
          (case chunk_and_embed env s text of
             (s', Inl e) \<Rightarrow> (s', Inl e)
           | (s', Inr u) \<Rightarrow>
               (s', Inr (check_mark @ py '' Processed '' @ str_nat (length (doc_chunks s')) @
                         py '' chunks from PDF.''))))"

definition ingest_from_pdf :: "env \<Rightarrow> store \<Rightarrow> file_obj \<Rightarrow> store \<times> (py_exception + pystr)" where
  "ingest_from_pdf env s file =
     try_except (ingest_from_pdf_body env s file)
       (\<lambda>e. cross_mark @ py '' Failed to process PDF: '' @ exc_str e)"

definition ingest_from_website_body :: "env \<Rightarrow> store \<Rightarrow> pystr \<Rightarrow> store \<times> (py_exception + pystr)" where
  "ingest_from_website_body env s url =
     (case fetch_paragraphs env url of
        Inl e \<Rightarrow> (s, Inl e)
      | Inr ps \<Rightarrow>
          (case chunk_and_embed env s (py_join (py '' '') ps) of
             (s', Inl e) \<Rightarrow> (s', Inl e)
           | (s', Inr u) \<Rightarrow>
               (s', Inr (check_mark @ py '' Successfully ingested website from '' @ url @
                         py ''. '' @ str_nat (length (doc_chunks s')) @ py '' chunks created.''))))"

definition ingest_from_website :: "env \<Rightarrow> store \<Rightarrow> pystr \<Rightarrow> store \<times> (py_exception + pystr)" where
  "ingest_from_website env s url =
     try_except (ingest_from_website_body env s url)
       (\<lambda>e. cross_mark @ py '' Error ingesting website from '' @ url @ py '': '' @ exc_str e)"

text \<open>\<open>url.split("v=")[-1]\<close>: what follows the last \<open>v=\<close>, or the whole string.\<close>

fun last_piece :: "pystr \<Rightarrow> pystr \<Rightarrow> pystr" where
  "last_piece piece [] = piece"
| "last_piece piece [c] = piece @ [c]"
| "last_piece piece (c # d # cs) =
     (if c = 118 \<and> d = 61 then last_piece [] cs else last_piece (piece @ [c]) (d # cs))"

definition ingest_from_youtube_body :: "env \<Rightarrow> store \<Rightarrow> pystr \<Rightarrow> store \<times> (py_exception + pystr)" where
  "ingest_from_youtube_body env s url =
     (let video_id = last_piece [] url in
      case get_transcript env video_id of
        Inl e \<Rightarrow> (s, Inl e)
      | Inr transcript \<Rightarrow>
          (case chunk_and_embed env s (py_join (py '' '') transcript) of
             (s', Inl e) \<Rightarrow> (s', Inl e)
           | (s', Inr u) \<Rightarrow>
               (s', Inr (check_mark @ py '' Successfully ingested YouTube transcript. '' @
                         str_nat (length (doc_chunks s')) @ py '' chunks created.''))))"

definition ingest_from_youtube :: "env \<Rightarrow> store \<Rightarrow> pystr \<Rightarrow> store \<times> (py_exception + pystr)" where
  "ingest_from_youtube env s url =
     try_except (ingest_from_youtube_body env s url)
       (\<lambda>e. cross_mark @ py '' Error ingesting YouTube transcript: '' @ exc_str e)"

definition ingest_from_text_body :: "env \<Rightarrow> store \<Rightarrow> pystr \<Rightarrow> store \<times> (py_exception + pystr)" where
  "ingest_from_text_body env s text =
     (case chunk_and_embed env s text of
        (s', Inl e) \<Rightarrow> (s', Inl e)
      | (s', Inr u) \<Rightarrow>
          (s', Inr (check_mark @ py '' Successfully ingested pasted text. '' @
                    str_nat (length (doc_chunks s')) @ py '' chunks created.'')))"

definition ingest_from_text :: "env \<Rightarrow> store \<Rightarrow> pystr \<Rightarrow> store \<times> (py_exception + pystr)" where
  "ingest_from_text env s text =
     try_except (ingest_from_text_body env s text)
       (\<lambda>e. cross_mark @ py '' Error ingesting text: '' @ exc_str e)"

text \<open>
  \<open>str.capitalize\<close> on ASCII letters; it is applied to \<open>docs\<close> and \<open>slides\<close> only.
\<close>

definition capitalize :: "pystr \<Rightarrow> pystr" where
  "capitalize t =
     (case t of
        [] \<Rightarrow> []
      | c # cs \<Rightarrow>
          (if 97 \<le> c \<and> c \<le> 122 then c - 32 else c) #
          map (\<lambda>d. if 65 \<le> d \<and> d \<le> 90 then d + 32 else d) cs)"

text \<open>The loop over the files found: each content is appended with a blank line.\<close>

fun download_all :: "env \<Rightarrow> (pystr \<times> pystr) list \<Rightarrow> pystr \<Rightarrow> py_exception + pystr" where
  "download_all env [] full_text = Inr full_text"
| "download_all env (item # items) full_text =
     (case drive_export env (fst item) of
        Inl e \<Rightarrow> Inl e
      | Inr content \<Rightarrow> download_all env items (full_text @ content @ [10, 10]))"

definition ingest_from_gdrive_body :: "env \<Rightarrow> store \<Rightarrow> pystr \<Rightarrow> store \<times> (py_exception + pystr)" where
  "ingest_from_gdrive_body env s file_type =
     (case google_service env of
        Inl e \<Rightarrow> (s, Inl e)
      | Inr drive_service \<Rightarrow>
          if file_type \<noteq> py ''docs'' \<and> file_type \<noteq> py ''slides''
          then (s, Inr (py ''Unsupported Google file type.''))
          else
            (let mime_type =
                   (if file_type = py ''docs'' then py ''application/vnd.google-apps.document''
                    else py ''application/vnd.google-apps.presentation'') in
             case drive_list env mime_type of
               Inl e \<Rightarrow> (s, Inl e)
             | Inr items \<Rightarrow>
                 if items = []
                 then (s, Inr (py ''No Google '' @ capitalize file_type @ py '' found in your Drive.''))
                 else
                   (case download_all env items [] of
                      Inl e \<Rightarrow> (s, Inl e)
                    | Inr full_text \<Rightarrow>
                        (case chunk_and_embed env s full_text of
                           (s', Inl e) \<Rightarrow> (s', Inl e)
                         | (s', Inr u) \<Rightarrow>
                             (s', Inr (check_mark @ py '' Successfully ingested '' @
                                       str_nat (length items) @ py '' Google '' @
                                       capitalize file_type @ py ''.''))))))"

definition ingest_from_gdrive :: "env \<Rightarrow> store \<Rightarrow> pystr \<Rightarrow> store \<times> (py_exception + pystr)" where
  "ingest_from_gdrive env s file_type =
     try_except (ingest_from_gdrive_body env s file_type)
       (\<lambda>e. case e of
               HttpError m \<Rightarrow> cross_mark @ py '' Google API error: '' @ m
             | _ \<Rightarrow> cross_mark @ py '' Failed to ingest from Google Drive: '' @ exc_str e)"

section \<open>Search\<close>

text \<open>
  \<open>cosine_similarity\<close> of scikit-learn: both arrays need a row and a column and the
  same number of columns; the rows are normalised, a row of norm zero staying as it
  is, and the scores are the dot products.
\<close>

definition dot :: "vec \<Rightarrow> vec \<Rightarrow> real" where
  "dot a b = sum_list (map2 (*) a b)"

definition l2_norm :: "vec \<Rightarrow> real" where
  "l2_norm a = sqrt (dot a a)"

definition normalize_l2 :: "vec \<Rightarrow> vec" where
  "normalize_l2 a = (let n = l2_norm a in map (\<lambda>x. x / (if n = 0 then 1 else n)) a)"

definition cosine :: "vec \<Rightarrow> vec \<Rightarrow> real" where
  "cosine a b = dot (normalize_l2 a) (normalize_l2 b)"

definition ncols :: "vec list \<Rightarrow> nat" where
  "ncols X = (case X of [] \<Rightarrow> 0 | r # rs \<Rightarrow> length r)"

definition cosine_similarity :: "vec list \<Rightarrow> vec list \<Rightarrow> py_exception + real list list" where
  "cosine_similarity X Y =
     (if X = [] \<or> Y = [] then Inl (ValueError (py ''Found array with 0 sample(s)''))
      else if ncols X = 0 \<or> ncols Y = 0 then Inl (ValueError (py ''Found array with 0 feature(s)''))
      else if ncols X \<noteq> ncols Y
      then Inl (ValueError (py ''Incompatible dimension for X and Y matrices: X.shape[1] == '' @
                  str_nat (ncols X) @ py '' while Y.shape[1] == '' @ str_nat (ncols Y)))
      else Inr (map (\<lambda>x. map (\<lambda>y. cosine x y) Y) X))"

text \<open>
  The try block of \<open>get_top_chunks\<close> up to \<open>indices\<close>: the query is encoded as a
  batch of one, the first row of the similarity matrix is sorted by \<open>argsort\<close>,
  reversed and cut to its first \<open>k\<close> entries.
\<close>

definition top_indices :: "env \<Rightarrow> vec list \<Rightarrow> pystr \<Rightarrow> int \<Rightarrow> py_exception + nat list" where
  "top_indices env Y query k =
     (case encode env [query] of
        Inl e \<Rightarrow> Inl e
      | Inr query_emb \<Rightarrow>
          (case cosine_similarity query_emb Y of
             Inl e \<Rightarrow> Inl e
           | Inr K \<Rightarrow>
               (case K of
                  [] \<Rightarrow> Inl (IndexError (py ''index 0 is out of bounds for axis 0 with size 0''))
                | sims # rest \<Rightarrow> Inr (py_slice (rev (argsort env sims)) 0 k))))"

text \<open>
  \<open>get_top_chunks\<close>: \<open>None\<close> when nothing is stored and when the try block raises,
  otherwise the selected chunks joined by a blank line. The store is only read.
\<close>

definition get_top_chunks :: "env \<Rightarrow> store \<Rightarrow> pystr \<Rightarrow> int \<Rightarrow> pystr option" where
  "get_top_chunks env s query k =
     (if doc_chunks s = [] \<or> \<not> is_ndarray (doc_embeddings s) \<or> nd_size (doc_embeddings s) = 0
      then None
      else
        (case top_indices env (nd_rows (doc_embeddings s)) query k of
           Inl e \<Rightarrow> None
         | Inr indices \<Rightarrow>
             Some (py_join [10, 10]
                    (map (\<lambda>i. doc_chunks s ! i)
                       (filter (\<lambda>i. i < length (doc_chunks s)) indices)))))"

section \<open>Sequences of calls\<close>

datatype ingestion =
    FromPdf file_obj
  | FromGdrive pystr
  | FromWebsite pystr
  | FromYoutube pystr
  | FromText pystr

datatype call = Ingest ingestion | GetTopChunks pystr int

fun ingest :: "env \<Rightarrow> store \<Rightarrow> ingestion \<Rightarrow> store \<times> (py_exception + pystr)" where
  "ingest env s (FromPdf file) = ingest_from_pdf env s file"
| "ingest env s (FromGdrive file_type) = ingest_from_gdrive env s file_type"
| "ingest env s (FromWebsite url) = ingest_from_website env s url"
| "ingest env s (FromYoutube url) = ingest_from_youtube env s url"
| "ingest env s (FromText text) = ingest_from_text env s text"

text \<open>The try body of an ingestion call, for speaking of a call that fails.\<close>

fun ingest_body :: "env \<Rightarrow> store \<Rightarrow> ingestion \<Rightarrow> store \<times> (py_exception + pystr)" where
  "ingest_body env s (FromPdf file) = ingest_from_pdf_body env s file"
| "ingest_body env s (FromGdrive file_type) = ingest_from_gdrive_body env s file_type"
| "ingest_body env s (FromWebsite url) = ingest_from_website_body env s url"
| "ingest_body env s (FromYoutube url) = ingest_from_youtube_body env s url"
| "ingest_body env s (FromText text) = ingest_from_text_body env s text"

text \<open>The store after a call; \<open>get_top_chunks\<close> leaves it as it is.\<close>

fun exec_call :: "env \<Rightarrow> store \<Rightarrow> call \<Rightarrow> store" where
  "exec_call env s (Ingest i) = fst (ingest env s i)"
| "exec_call env s (GetTopChunks query k) = s"

fun exec_calls :: "env \<Rightarrow> store \<Rightarrow> call list \<Rightarrow> store" where
  "exec_calls env s [] = s"
| "exec_calls env s (c # cs) = exec_calls env (exec_call env s c) cs"

text \<open>The number of stored vectors.\<close>

definition n_vectors :: "store \<Rightarrow> nat" where
  "n_vectors s = length (nd_rows (doc_embeddings s))"

section \<open>A sample environment\<close>

text \<open>
  A stable \<open>argsort\<close>, and an environment around a given embedder: the sort is the
  stable one, a PDF has one page holding its bytes as text, a web page has one
  paragraph, a transcript has one entry, and the Drive lists no file.
\<close>

definition stable_argsort :: "real list \<Rightarrow> nat list" where
  "stable_argsort xs = sort_key (\<lambda>i. xs ! i) [0..<length xs]"

definition sample_env :: "(pystr list \<Rightarrow> py_exception + vec list) \<Rightarrow> env" where
  "sample_env enc =
     \<lparr>encode = enc,
      argsort = stable_argsort,
      pdf_reader = (\<lambda>file. if file = [] then Inl (OtherException (py ''Cannot read an empty file''))
                            else Inr [Inr (Some file)]),
      fetch_paragraphs = (\<lambda>url. Inr [url]),
      get_transcript = (\<lambda>video_id. if video_id = [] then Inl (OtherException (py ''no transcript''))
                                     else Inr [video_id]),
      google_service = Inr (),
      drive_list = (\<lambda>mime_type. Inr []),
      drive_export = (\<lambda>file_id. Inl (HttpError (py ''not found'')))\<rparr>"

text \<open>
  An embedder into two dimensions (does the text hold an \<open>a\<close>, does it hold a
  \<open>b\<close>) that is unavailable for a batch holding the text \<open>boom\<close>, and one that
  embeds a text holding a \<open>z\<close> into three dimensions.
\<close>

definition letter_vec :: "pystr \<Rightarrow> vec" where
  "letter_vec t = [if 97 \<in> set t then 1 else 0, if 98 \<in> set t then 1 else 0]"

definition letter_encode :: "pystr list \<Rightarrow> py_exception + vec list" where
  "letter_encode texts =
     (if py ''boom'' \<in> set texts then Inl (OtherException (py ''model unavailable''))
      else Inr (map letter_vec texts))"

definition mixed_encode :: "pystr list \<Rightarrow> py_exception + vec list" where
  "mixed_encode texts =
     Inr (map (\<lambda>t. if 122 \<in> set t then [0, 0, 1] else letter_vec t) texts)"

section \<open>Stores and environments the claims speak of\<close>

text \<open>
  A populated store of dimension \<open>d\<close>: at least one chunk, an array with one row
  for each chunk, every row of length \<open>d\<close>, and \<open>d\<close> positive.
\<close>

definition populated :: "store \<Rightarrow> nat \<Rightarrow> bool" where
  "populated s d \<longleftrightarrow>
     doc_chunks s \<noteq> [] \<and> is_ndarray (doc_embeddings s) \<and>
     length (nd_rows (doc_embeddings s)) = length (doc_chunks s) \<and>
     list_all (\<lambda>y. length y = d) (nd_rows (doc_embeddings s)) \<and> 0 < d"

text \<open>The similarities of the stored vectors to a query vector, in stored order.\<close>

definition similarities :: "store \<Rightarrow> vec \<Rightarrow> real list" where
  "similarities s qv = map (\<lambda>y. cosine qv y) (nd_rows (doc_embeddings s))"

text \<open>
  What NumPy promises of \<open>argsort\<close> on \<open>xs\<close>: the result holds every index once and
  \<open>xs\<close> ascends along it. The default sort is not stable, so the order of indices
  with equal values is left open.
\<close>

definition sorts :: "(real list \<Rightarrow> nat list) \<Rightarrow> real list \<Rightarrow> bool" where
  "sorts f xs \<longleftrightarrow>
     length (f xs) = length xs \<and> distinct (f xs) \<and> list_all (\<lambda>i. i < length xs) (f xs) \<and>
     sorted (map (\<lambda>i. xs ! i) (f xs))"

text \<open>An embedder that returns one vector for each text, whenever it returns.\<close>

definition one_vector_each :: "env \<Rightarrow> bool" where
  "one_vector_each env \<longleftrightarrow> (\<forall>texts vs. encode env texts = Inr vs \<longrightarrow> length vs = length texts)"

text \<open>
  A call whose try body raised and left the store changed: the embedder raised after
  \<open>doc_chunks\<close> was assigned. \<open>embedding_raised_in\<close> says so of some call of a sequence.
\<close>

definition embedding_raised :: "env \<Rightarrow> store \<Rightarrow> call \<Rightarrow> bool" where
  "embedding_raised env s c =
     (case c of
        Ingest i \<Rightarrow> (case ingest_body env s i of (s', Inl e) \<Rightarrow> s' \<noteq> s | (s', Inr msg) \<Rightarrow> False)
      | GetTopChunks query k \<Rightarrow> False)"

fun embedding_raised_in :: "env \<Rightarrow> store \<Rightarrow> call list \<Rightarrow> bool" where
  "embedding_raised_in env s [] = False"
| "embedding_raised_in env s (c # cs) =
     (embedding_raised env s c \<or> embedding_raised_in env (exec_call env s c) cs)"

text \<open>Three chunks, the first two with the same vector, and a store of one chunk.\<close>

definition three_chunks :: store where
  "three_chunks =
     \<lparr>doc_chunks = [py ''a'', py ''aa'', py ''b''],
      doc_embeddings = NdArray [[1, 0], [1, 0], [0, 1]]\<rparr>"

definition one_chunk :: store where
  "one_chunk = \<lparr>doc_chunks = [py ''a''], doc_embeddings = NdArray [[1, 0]]\<rparr>"

text \<open>
  A text of 301 words, three hundred times \<open>a\<close> and then \<open>b\<close>, the first of its two
  chunks, and a store of one chunk and two vectors.
\<close>

definition long_text :: pystr where
  "long_text = concat (replicate 300 (py ''a '')) @ py ''b''"

definition first_chunk :: pystr where
  "first_chunk = py_join (py '' '') (replicate 300 (py ''a''))"

definition two_rows_one_chunk :: store where
  "two_rows_one_chunk = \<lparr>doc_chunks = [py ''boom''], doc_embeddings = NdArray [[1, 0], [0, 1]]\<rparr>"

text \<open>
  What the try body of an ingestion call can have done to the store \<open>s\<close>: nothing,
  or, having chunked some text, replaced \<open>doc_chunks\<close> alone (the embedder raised) or
  both fields (it returned).
\<close>

definition after_body :: "env \<Rightarrow> store \<Rightarrow> store \<times> (py_exception + pystr) \<Rightarrow> bool" where
  "after_body env s r \<longleftrightarrow>
     (case r of
        (s', Inl e) \<Rightarrow>
          s' = s \<or> (\<exists>text chunks. split_text text CHUNK_SIZE = Inr chunks \<and>
                      encode env chunks = Inl e \<and> s' = s\<lparr>doc_chunks := chunks\<rparr>)
      | (s', Inr msg) \<Rightarrow>
          s' = s \<or> (\<exists>text chunks vs. split_text text CHUNK_SIZE = Inr chunks \<and>
                      encode env chunks = Inr vs \<and>
                      s' = \<lparr>doc_chunks = chunks, doc_embeddings = NdArray vs\<rparr>))"

text \<open>
  As many vectors as chunks, and the stored vectors, once there is an array, are the
  embedder's output for the stored chunks.
\<close>

definition aligned :: "env \<Rightarrow> store \<Rightarrow> bool" where
  "aligned env s \<longleftrightarrow>
     length (doc_chunks s) = n_vectors s \<and>
     (doc_embeddings s = PyList \<or> encode env (doc_chunks s) = Inr (nd_rows (doc_embeddings s)))"

section \<open>Facts about ranges, slices and words\<close>

lemma length_range_from:
  "0 < step \<Longrightarrow> length (range_from a b step) = nat ((b - a + step - 1) div step)"
proof (induction a b step rule: range_from.induct)
  case (1 start stop step)
  show ?case
  proof (cases "start < stop")
    case True
    have "(stop - start + step - 1) div step = (stop - (start + step) + step - 1) div step + 1"
    proof -
      have "stop - start + step - 1 = (stop - (start + step) + step - 1) + 1 * step" by simp
      then show ?thesis using "1.prems" by (metis div_add_self2 less_irrefl mult_1 add.commute div_mult_self1)
    qed
    moreover have "0 \<le> (stop - (start + step) + step - 1) div step"
      using True "1.prems" by (simp add: pos_imp_zdiv_nonneg_iff)
    ultimately show ?thesis
      using True "1.prems" "1.IH"(1) by (subst range_from.simps) (simp add: nat_add_distrib)
  next
    case False
    have "(stop - start + step - 1) div step \<le> (step - 1) div step"
      using False "1.prems" by (intro zdiv_mono1) simp_all
    moreover have "(step - 1) div step = 0"
      using "1.prems" by (simp add: div_pos_pos_trivial)
    ultimately have "(stop - start + step - 1) div step \<le> 0" by simp
    with False "1.prems" show ?thesis by (subst range_from.simps) simp
  qed
qed

lemma nth_range_from:
  "0 < step \<Longrightarrow> j < length (range_from a b step) \<Longrightarrow> range_from a b step ! j = a + int j * step"
proof (induction a b step arbitrary: j rule: range_from.induct)
  case (1 start stop step)
  show ?case
  proof (cases "start < stop")
    case True
    then have eq: "range_from start stop step = start # range_from (start + step) stop step"
      using "1.prems"(1) by (subst range_from.simps) simp
    show ?thesis
    proof (cases j)
      case 0
      then show ?thesis by (simp add: eq)
    next
      case (Suc j')
      then have "j' < length (range_from (start + step) stop step)"
        using "1.prems"(2) eq by simp
      then have "range_from (start + step) stop step ! j' = start + step + int j' * step"
        using "1.IH"(1) True "1.prems"(1) by simp
      then show ?thesis using Suc eq by (simp add: algebra_simps)
    qed
  next
    case False
    then have "range_from start stop step = []"
      using "1.prems"(1) by (subst range_from.simps) simp
    with "1.prems"(2) show ?thesis by simp
  qed
qed

lemma range_from_neg: "step < 0 \<Longrightarrow> 0 \<le> stop \<Longrightarrow> range_from 0 stop step = []"
  by (subst range_from.simps) simp

lemma split_ws_nospace:
  "\<forall>c\<in>set u. \<not> py_isspace c \<Longrightarrow> split_ws w (u @ rest) = split_ws (w @ u) rest"
  by (induction u arbitrary: w) simp_all

lemma split_ws_words:
  "\<forall>c\<in>set w. \<not> py_isspace c \<Longrightarrow> \<forall>t\<in>set (split_ws w cs). is_word t"
proof (induction cs arbitrary: w)
  case Nil
  then show ?case by (simp add: is_word_def)
next
  case (Cons c cs)
  show ?case
  proof (cases "py_isspace c")
    case True
    have "\<forall>t\<in>set (split_ws [] cs). is_word t"
      using Cons.IH [of "[]"] by simp
    with True Cons.prems show ?thesis by (simp add: is_word_def)
  next
    case False
    have "\<forall>t\<in>set (split_ws (w @ [c]) cs). is_word t"
      using Cons.IH [of "w @ [c]"] Cons.prems False by simp
    with False show ?thesis by simp
  qed
qed

lemma py_split_words: "\<forall>t\<in>set (py_split text). is_word t"
  using split_ws_words [of "[]" "text"] by (simp add: py_split_def)

lemma py_split_blank: "\<forall>c\<in>set text. py_isspace c \<Longrightarrow> py_split text = []"
  unfolding py_split_def by (induction "text") simp_all

lemma py_space: "py '' '' = [32]"
  by (simp add: py_def)

lemma py_split_join:
  "\<forall>t\<in>set ts. is_word t \<Longrightarrow> py_split (py_join (py '' '') ts) = ts"
proof (induction "py '' ''" ts rule: py_join.induct)
  case 1
  then show ?case by (simp add: py_split_def)
next
  case (2 x)
  then have "split_ws [] (x @ []) = split_ws ([] @ x) []"
    by (intro split_ws_nospace) (simp add: is_word_def)
  with 2 show ?case by (simp add: py_split_def is_word_def)
next
  case (3 x y ys)
  then have x: "x \<noteq> []" "\<forall>c\<in>set x. \<not> py_isspace c"
    by (simp_all add: is_word_def)
  have "split_ws [] (x @ 32 # py_join (py '' '') (y # ys)) = split_ws ([] @ x) (32 # py_join (py '' '') (y # ys))"
    using x(2) by (rule split_ws_nospace)
  also have "\<dots> = x # split_ws [] (py_join (py '' '') (y # ys))"
    using x(1) by (simp add: py_isspace_def)
  also have "\<dots> = x # y # ys"
    using 3 by (simp add: py_split_def)
  finally show ?case by (simp add: py_split_def py_space)
qed

lemma concat_take_drop:
  "concat (map (\<lambda>j. take S (drop (j * S) xs)) [0..<m]) = take (m * S) xs"
proof (induction m)
  case 0
  show ?case by simp
next
  case (Suc m)
  have "take (Suc m * S) xs = take (m * S) xs @ take S (drop (m * S) xs)"
    by (metis take_add mult_Suc add.commute)
  with Suc show ?case by simp
qed

lemma py_slice_group:
  assumes "0 < sz" "j * nat sz < length ws"
  shows "py_slice ws (int j * sz) (int j * sz + sz) = take (nat sz) (drop (j * nat sz) ws)"
proof -
  have a: "nat (int j * sz) = j * nat sz"
    using assms(1) by (simp add: nat_mult_distrib)
  have b: "nat (int j * sz + sz) = j * nat sz + nat sz"
    using assms(1) by (simp add: nat_add_distrib nat_mult_distrib)
  have "0 \<le> int j * sz"
    using assms(1) by simp
  then have "\<not> int j * sz < 0" "\<not> int j * sz + sz < 0"
    using assms(1) by linarith+
  then show ?thesis
    using assms(2) by (simp add: py_slice_def slice_bound_def a b min_def Let_def)
qed

lemma n_chunks_cover: "0 < sz \<Longrightarrow> n \<le> n_chunks n sz * nat sz"
proof -
  assume sz: "0 < sz"
  have "int n + sz - 1 = ((int n + sz - 1) div sz) * sz + (int n + sz - 1) mod sz" by simp
  moreover have "(int n + sz - 1) mod sz \<le> sz - 1" using sz by simp
  ultimately have "int n \<le> ((int n + sz - 1) div sz) * sz" by linarith
  moreover have "0 \<le> (int n + sz - 1) div sz" using sz by (simp add: pos_imp_zdiv_nonneg_iff)
  ultimately have "int n \<le> int (n_chunks n sz * nat sz)"
    using sz by (simp add: n_chunks_def)
  then show ?thesis by linarith
qed

lemma n_chunks_strict: "0 < sz \<Longrightarrow> j < n_chunks n sz \<Longrightarrow> j * nat sz < n"
proof -
  assume sz: "0 < sz" and j: "j < n_chunks n sz"
  then have "int j + 1 \<le> (int n + sz - 1) div sz" by (simp add: n_chunks_def)
  then have "(int j + 1) * sz \<le> ((int n + sz - 1) div sz) * sz"
    using sz by simp
  also have "\<dots> \<le> int n + sz - 1"
  proof -
    have "int n + sz - 1 = ((int n + sz - 1) div sz) * sz + (int n + sz - 1) mod sz" by simp
    moreover have "0 \<le> (int n + sz - 1) mod sz" using sz by simp
    ultimately show ?thesis by linarith
  qed
  finally have "int j * sz < int n" by (simp add: algebra_simps)
  then have "int (j * nat sz) < int n" using sz by simp
  then show ?thesis by linarith
qed

lemma split_text_pos:
  assumes "0 < sz"
  shows "split_text text sz =
     Inr (map (\<lambda>j. py_join (py '' '') (take (nat sz) (drop (j * nat sz) (py_split text))))
            [0..<n_chunks (length (py_split text)) sz])"
proof -
  let ?ws = "py_split text"
  let ?m = "n_chunks (length ?ws) sz"
  let ?r = "range_from 0 (int (length ?ws)) sz"
  have len: "length ?r = ?m"
    using assms by (simp add: length_range_from n_chunks_def)
  have nth: "?r ! j = int j * sz" if "j < ?m" for j
    using that assms len nth_range_from [of sz j 0 "int (length ?ws)"] by simp
  have "map (\<lambda>i. py_join (py '' '') (py_slice ?ws i (i + sz))) ?r =
        map (\<lambda>j. py_join (py '' '') (take (nat sz) (drop (j * nat sz) ?ws))) [0..<?m]"
  proof (rule nth_equalityI)
    show "length (map (\<lambda>i. py_join (py '' '') (py_slice ?ws i (i + sz))) ?r) =
          length (map (\<lambda>j. py_join (py '' '') (take (nat sz) (drop (j * nat sz) ?ws))) [0..<?m])"
      by (simp add: len)
  next
    fix j assume "j < length (map (\<lambda>i. py_join (py '' '') (py_slice ?ws i (i + sz))) ?r)"
    then have j: "j < ?m" by (simp add: len)
    then have "j * nat sz < length ?ws" using assms by (rule n_chunks_strict [rotated])
    then show "map (\<lambda>i. py_join (py '' '') (py_slice ?ws i (i + sz))) ?r ! j =
          map (\<lambda>j. py_join (py '' '') (take (nat sz) (drop (j * nat sz) ?ws))) [0..<?m] ! j"
      using j len nth [OF j] py_slice_group [OF assms, of j ?ws] by simp
  qed
  then show ?thesis
    using assms by (simp add: split_text_def py_range_def Let_def)
qed

lemmas split_text_eval = split_text_def py_split_def py_range_def py_slice_def slice_bound_def
  py_def py_isspace_def range_from.simps

section \<open>The chunker: size, count and reconstruction\<close>

text \<open>
  C5, as the code has it. \<open>split_text\<close> does not check its size: with size zero
  \<open>range\<close> raises \<open>ValueError\<close> whatever the text is, and with a negative size the
  range is empty and the result is the empty list, without an error. Either way the
  call returns at once.
\<close>

theorem split_text_nonpositive:
  "split_text text 0 = Inl (ValueError (py ''range() arg 3 must not be zero'')) \<and>
   (sz < 0 \<longrightarrow> split_text text sz = Inr [])"
  by (simp add: split_text_def py_range_def range_from_neg Let_def)

text \<open>C5, witness: sizes zero and minus two on a text of three words.\<close>

theorem split_text_nonpositive_witness:
  "(- 2 :: int) < 0 \<and>
   split_text (py ''a b c'') 0 = Inl (ValueError (py ''range() arg 3 must not be zero'')) \<and>
   split_text (py ''a b c'') (- 2) = Inr []"
  using split_text_nonpositive [of "py ''a b c''" "- 2"] by simp

text \<open>
  C5, counterexample: with size minus one a text of three words gives the empty
  list, a result and not a failure.
\<close>

theorem split_text_small_counterexample:
  "split_text (py ''a b c'') (- 1) = Inr []"
  by (simp add: split_text_eval)

text \<open>
  C6: for a text of \<open>N\<close> words and a positive chunk size \<open>S\<close>, \<open>split_text\<close> returns
  \<open>\<lceil>N / S\<rceil>\<close> chunks, and none for a text of whitespace only.
\<close>

theorem split_text_count:
  assumes "0 < sz"
  shows "\<exists>chunks. split_text text sz = Inr chunks \<and>
           int (length chunks) = \<lceil>real (length (py_split text)) / real_of_int sz\<rceil> \<and>
           ((\<forall>c\<in>set text. py_isspace c) \<longrightarrow> chunks = [])"
proof -
  let ?n = "length (py_split text)"
  have "\<lceil>real ?n / real_of_int sz\<rceil> = \<lceil>real_of_int (int ?n) / real_of_int sz\<rceil>" by simp
  also have "\<dots> = - (- int ?n div sz)" by (rule ceiling_divide_eq_div)
  also have "\<dots> = (int ?n + sz - 1) div sz"
  proof -
    define q where "q = (int ?n + sz - 1) div sz"
    define r where "r = (int ?n + sz - 1) mod sz"
    have "int ?n + sz - 1 = sz * q + r"
      by (simp add: q_def r_def)
    then have "- int ?n = sz * (- q) + (sz - 1 - r)"
      by (simp add: algebra_simps)
    moreover have "0 \<le> r" "r < sz"
      using assms by (simp_all add: r_def)
    then have "0 \<le> sz - 1 - r" "sz - 1 - r < sz"
      by linarith+
    ultimately have "(- int ?n) div sz = - q"
      by (rule int_div_pos_eq)
    then show ?thesis by (simp add: q_def)
  qed
  finally have c: "\<lceil>real ?n / real_of_int sz\<rceil> = (int ?n + sz - 1) div sz" .
  have "0 \<le> (int ?n + sz - 1) div sz"
    using assms by (simp add: pos_imp_zdiv_nonneg_iff)
  then have "int (n_chunks ?n sz) = \<lceil>real ?n / real_of_int sz\<rceil>"
    by (simp add: n_chunks_def c)
  moreover have "n_chunks ?n sz = 0" if "\<forall>c\<in>set text. py_isspace c"
    using that assms by (simp add: py_split_blank n_chunks_def div_pos_pos_trivial)
  ultimately show ?thesis
    by (simp add: split_text_pos [OF assms])
qed

text \<open>
  C6, witness: five words at size two give three chunks, and a text of two blanks,
  a tab and a newline gives none.
\<close>

theorem split_text_count_witness:
  "(0::int) < 2 \<and>
   split_text (py ''apple banana cherry date elderberry'') 2 =
     Inr [py ''apple banana'', py ''cherry date'', py ''elderberry''] \<and>
   int (length [py ''apple banana'', py ''cherry date'', py ''elderberry'']) =
     \<lceil>real (length (py_split (py ''apple banana cherry date elderberry''))) / real_of_int 2\<rceil> \<and>
   list_all py_isspace (py ''  '' @ [9, 10]) \<and>
   split_text (py ''  '' @ [9, 10]) 2 = Inr []"
proof -
  have e: "split_text (py ''apple banana cherry date elderberry'') 2 =
      Inr [py ''apple banana'', py ''cherry date'', py ''elderberry'']"
    by (simp add: split_text_eval)
  have b: "\<forall>c\<in>set (py ''  '' @ [9, 10]). py_isspace c"
    by (simp add: py_def py_isspace_def)
  from split_text_count [of 2 "py ''apple banana cherry date elderberry''"] e
  have "int (length [py ''apple banana'', py ''cherry date'', py ''elderberry'']) =
     \<lceil>real (length (py_split (py ''apple banana cherry date elderberry''))) / real_of_int 2\<rceil>"
    by auto
  moreover from split_text_count [of 2 "py ''  '' @ [9, 10]"] b
  have "split_text (py ''  '' @ [9, 10]) 2 = Inr []"
    by auto
  ultimately show ?thesis using e b by (simp add: list_all_iff)
qed

text \<open>
  C7: for a positive chunk size \<open>S\<close>, chunk \<open>i\<close> is the words \<open>[i * S, (i + 1) * S)\<close>
  of the text joined by single spaces, and the words of all chunks, in order, are
  the words of the text.
\<close>

theorem split_text_tokens:
  assumes "0 < sz"
  shows "\<exists>chunks. split_text text sz = Inr chunks \<and>
           (\<forall>i<length chunks.
              chunks ! i = py_join (py '' '') (take (nat sz) (drop (i * nat sz) (py_split text)))) \<and>
           concat (map py_split chunks) = py_split text"
proof -
  let ?ws = "py_split text"
  let ?m = "n_chunks (length ?ws) sz"
  let ?group = "\<lambda>j. take (nat sz) (drop (j * nat sz) ?ws)"
  let ?chunks = "map (\<lambda>j. py_join (py '' '') (?group j)) [0..<?m]"
  have words: "\<forall>t\<in>set (?group j). is_word t" for j
    using py_split_words [of "text"] by (meson in_set_dropD in_set_takeD)
  have "map py_split ?chunks = map ?group [0..<?m]"
    by (simp add: py_split_join [OF words])
  then have "concat (map py_split ?chunks) = take (?m * nat sz) ?ws"
    by (simp only: concat_take_drop)
  also have "\<dots> = ?ws"
    using n_chunks_cover [OF assms, of "length ?ws"] by simp
  finally have "concat (map py_split ?chunks) = ?ws" .
  moreover have "\<forall>i<length ?chunks. ?chunks ! i = py_join (py '' '') (?group i)"
    by simp
  ultimately show ?thesis
    unfolding split_text_pos [OF assms] by blast
qed

text \<open>C7, witness: the five fruits at size two, with a double blank and a trailing blank.\<close>

theorem split_text_tokens_witness:
  "(0::int) < 2 \<and>
   split_text (py ''apple  banana cherry date elderberry '') 2 =
     Inr [py ''apple banana'', py ''cherry date'', py ''elderberry''] \<and>
   concat (map py_split [py ''apple banana'', py ''cherry date'', py ''elderberry'']) =
     py_split (py ''apple  banana cherry date elderberry '') \<and>
   py_split (py ''apple  banana cherry date elderberry '') =
     [py ''apple'', py ''banana'', py ''cherry'', py ''date'', py ''elderberry'']"
proof -
  have e: "split_text (py ''apple  banana cherry date elderberry '') 2 =
      Inr [py ''apple banana'', py ''cherry date'', py ''elderberry'']"
    by (simp add: split_text_eval)
  have w: "py_split (py ''apple  banana cherry date elderberry '') =
     [py ''apple'', py ''banana'', py ''cherry'', py ''date'', py ''elderberry'']"
    by (simp add: py_split_def py_def py_isspace_def)
  from split_text_tokens [of 2 "py ''apple  banana cherry date elderberry ''"] e
  have "concat (map py_split [py ''apple banana'', py ''cherry date'', py ''elderberry'']) =
     py_split (py ''apple  banana cherry date elderberry '')"
    by auto
  then show ?thesis using e w by simp
qed

section \<open>Facts about search\<close>

lemma py_slice_prefix: "py_slice xs 0 k = take (slice_bound (length xs) k) xs"
  by (simp add: py_slice_def slice_bound_def)

lemma slice_bound_nonneg: "0 \<le> k \<Longrightarrow> slice_bound n k = min n (nat k)"
  by (simp add: slice_bound_def)

lemma sum_list_rows:
  "list_all (\<lambda>y. length y = d) Y \<Longrightarrow> sum_list (map length Y) = length Y * d"
  by (induction Y) simp_all

lemma ncols_rows:
  "list_all (\<lambda>y. length y = d) Y \<Longrightarrow> Y \<noteq> [] \<Longrightarrow> ncols Y = d"
  by (cases Y) (simp_all add: ncols_def)

lemma populated_rows:
  assumes "populated s d"
  shows "nd_rows (doc_embeddings s) \<noteq> []" "ncols (nd_rows (doc_embeddings s)) = d"
    "nd_size (doc_embeddings s) \<noteq> 0"
proof -
  let ?Y = "nd_rows (doc_embeddings s)"
  show ne: "?Y \<noteq> []"
    using assms by (auto simp: populated_def)
  show "ncols ?Y = d"
    using assms ne by (simp add: populated_def ncols_rows)
  have "list_all (\<lambda>y. length y = d) ?Y"
    using assms by (simp add: populated_def)
  then have "nd_size (doc_embeddings s) = length ?Y * d"
    unfolding nd_size_def by (rule sum_list_rows)
  then show "nd_size (doc_embeddings s) \<noteq> 0"
    using assms ne by (simp add: populated_def)
qed

lemma cosine_similarity_query:
  assumes "populated s d" "length qv = d"
  shows "cosine_similarity [qv] (nd_rows (doc_embeddings s)) = Inr [similarities s qv]"
  using assms populated_rows [OF assms(1)]
  by (simp add: cosine_similarity_def similarities_def ncols_def populated_def)

lemma top_indices_populated:
  assumes "populated s d" "encode env [query] = Inr [qv]" "length qv = d"
  shows "top_indices env (nd_rows (doc_embeddings s)) query k =
           Inr (take (slice_bound (length (argsort env (similarities s qv))) k)
                  (rev (argsort env (similarities s qv))))"
  using assms by (simp add: top_indices_def cosine_similarity_query py_slice_prefix)


lemma get_top_chunks_populated:
  assumes "populated s d" "encode env [query] = Inr [qv]" "length qv = d"
    "sorts (argsort env) (similarities s qv)"
  shows "get_top_chunks env s query k =
           Some (py_join [10, 10] (map (\<lambda>i. doc_chunks s ! i)
                  (take (slice_bound (length (doc_chunks s)) k) (rev (argsort env (similarities s qv))))))"
proof -
  let ?as = "argsort env (similarities s qv)"
  have n: "length (similarities s qv) = length (doc_chunks s)"
    using assms(1) by (simp add: similarities_def populated_def)
  then have len: "length ?as = length (doc_chunks s)"
    using assms(4) by (simp add: sorts_def)
  have "\<forall>i\<in>set ?as. i < length (doc_chunks s)"
    using assms(4) n by (simp add: sorts_def list_all_iff)
  then have "\<forall>i\<in>set (take m (rev ?as)). i < length (doc_chunks s)" for m
    by (auto dest: in_set_takeD)
  then have f: "filter (\<lambda>i. i < length (doc_chunks s)) (take m (rev ?as)) = take m (rev ?as)" for m
    by (simp add: filter_id_conv)
  show ?thesis
    using assms(1) populated_rows [OF assms(1)]
    by (simp add: get_top_chunks_def top_indices_populated [OF assms(1-3)] len f populated_def)
qed

lemma rev_take_rev: "rev (take m (rev xs)) = drop (length xs - m) xs"
  by (simp add: rev_take)

lemma descending_prefix:
  assumes "sorted (map g xs)"
  shows "sorted (rev (map g (take m (rev xs))))"
proof -
  have "rev (map g (take m (rev xs))) = drop (length xs - m) (map g xs)"
    by (simp add: rev_map rev_take_rev drop_map)
  then show ?thesis using assms by (simp add: sorted_wrt_drop)
qed


lemmas search_eval = get_top_chunks_def top_indices_def cosine_similarity_def ncols_def cosine_def
  normalize_l2_def l2_norm_def dot_def nd_size_def sample_env_def stable_argsort_def
  letter_encode_def mixed_encode_def letter_vec_def py_def py_slice_def slice_bound_def
  three_chunks_def one_chunk_def init_store_def similarities_def populated_def sorts_def upt_rec

section \<open>Facts about ingestion\<close>

lemma split_text_default:
  "\<exists>chunks. split_text text CHUNK_SIZE = Inr chunks"
  by (simp add: split_text_pos CHUNK_SIZE_def)

lemma chunk_and_embed_cases:
  obtains (raised) chunks e where
      "split_text text CHUNK_SIZE = Inr chunks" "encode env chunks = Inl e"
      "chunk_and_embed env s text = (s\<lparr>doc_chunks := chunks\<rparr>, Inl e)"
  | (stored) chunks vs where
      "split_text text CHUNK_SIZE = Inr chunks" "encode env chunks = Inr vs"
      "chunk_and_embed env s text = (\<lparr>doc_chunks = chunks, doc_embeddings = NdArray vs\<rparr>, Inr ())"
proof -
  obtain chunks where c: "split_text text CHUNK_SIZE = Inr chunks"
    using split_text_default by blast
  show thesis
  proof (cases "encode env chunks")
    case (Inl e)
    with c have "chunk_and_embed env s text = (s\<lparr>doc_chunks := chunks\<rparr>, Inl e)"
      by (simp add: chunk_and_embed_def)
    with c Inl show thesis by (rule raised)
  next
    case (Inr vs)
    with c have "chunk_and_embed env s text = (\<lparr>doc_chunks = chunks, doc_embeddings = NdArray vs\<rparr>, Inr ())"
      by (simp add: chunk_and_embed_def)
    with c Inr show thesis by (rule stored)
  qed
qed

lemma after_chunk_and_embed:
  "after_body env s (case chunk_and_embed env s text of
      (s', Inl e) \<Rightarrow> (s', Inl e) | (s', Inr u) \<Rightarrow> (s', Inr (msg s')))"
  by (rule chunk_and_embed_cases [of "text" env s]) (auto simp: after_body_def)

lemma after_unchanged: "after_body env s (s, r)"
  by (cases r) (simp_all add: after_body_def)

lemma after_ingest_body: "after_body env s (ingest_body env s i)"
proof (cases i)
  case (FromPdf f)
  show ?thesis
    unfolding FromPdf ingest_body.simps ingest_from_pdf_body_def
    by (cases "extract_pdf_text env f") (simp_all add: after_unchanged after_chunk_and_embed)
next
  case (FromGdrive file_type)
  show ?thesis
    unfolding FromGdrive ingest_body.simps ingest_from_gdrive_body_def Let_def
    by (auto simp: after_unchanged after_chunk_and_embed split: sum.split)
next
  case (FromWebsite url)
  show ?thesis
    unfolding FromWebsite ingest_body.simps ingest_from_website_body_def
    by (cases "fetch_paragraphs env url") (simp_all add: after_unchanged after_chunk_and_embed)
next
  case (FromYoutube url)
  show ?thesis
    unfolding FromYoutube ingest_body.simps ingest_from_youtube_body_def Let_def
    by (cases "get_transcript env (last_piece [] url)") (simp_all add: after_unchanged after_chunk_and_embed)
next
  case (FromText t)
  show ?thesis
    unfolding FromText ingest_body.simps ingest_from_text_body_def
    by (rule after_chunk_and_embed)
qed

lemma ingest_try_except:
  "\<exists>handler. ingest env s i = try_except (ingest_body env s i) handler"
  by (cases i)
    (auto simp: ingest_from_pdf_def ingest_from_gdrive_def ingest_from_website_def
      ingest_from_youtube_def ingest_from_text_def)

lemma fst_try_except: "fst (try_except r handler) = fst r"
  by (cases r) (auto simp: try_except_def split: sum.split)


lemma fst_ingest: "fst (ingest env s i) = fst (ingest_body env s i)"
  using ingest_try_except [of env s i] by (auto simp: fst_try_except)


lemma aligned_init: "aligned env init_store"
  by (simp add: aligned_def init_store_def n_vectors_def)

lemma ingest_body_cases:
  obtains (unchanged) r where "ingest_body env s i = (s, r)"
  | (raised) t chunks e where
      "split_text t CHUNK_SIZE = Inr chunks" "encode env chunks = Inl e"
      "ingest_body env s i = (s\<lparr>doc_chunks := chunks\<rparr>, Inl e)"
  | (stored) t chunks vs msg where
      "split_text t CHUNK_SIZE = Inr chunks" "encode env chunks = Inr vs"
      "ingest_body env s i = (\<lparr>doc_chunks = chunks, doc_embeddings = NdArray vs\<rparr>, Inr msg)"
proof -
  obtain s' r where b: "ingest_body env s i = (s', r)"
    by (cases "ingest_body env s i")
  have a: "after_body env s (s', r)"
    using after_ingest_body [of env s i] b by simp
  show thesis
  proof (cases r)
    case (Inl e)
    with a have "s' = s \<or>
        (\<exists>t chunks. split_text t CHUNK_SIZE = Inr chunks \<and> encode env chunks = Inl e \<and>
           s' = s\<lparr>doc_chunks := chunks\<rparr>)"
      by (simp add: after_body_def)
    then show thesis
    proof
      assume "s' = s"
      with b show thesis by (simp add: unchanged)
    next
      assume "\<exists>t chunks. split_text t CHUNK_SIZE = Inr chunks \<and> encode env chunks = Inl e \<and>
           s' = s\<lparr>doc_chunks := chunks\<rparr>"
      then obtain t chunks where
        "split_text t CHUNK_SIZE = Inr chunks" "encode env chunks = Inl e"
        "s' = s\<lparr>doc_chunks := chunks\<rparr>"
        by blast
      with b Inl show thesis by (simp add: raised)
    qed
  next
    case (Inr msg)
    with a have "s' = s \<or>
        (\<exists>t chunks vs. split_text t CHUNK_SIZE = Inr chunks \<and> encode env chunks = Inr vs \<and>
           s' = \<lparr>doc_chunks = chunks, doc_embeddings = NdArray vs\<rparr>)"
      by (simp add: after_body_def)
    then show thesis
    proof
      assume "s' = s"
      with b show thesis by (simp add: unchanged)
    next
      assume "\<exists>t chunks vs. split_text t CHUNK_SIZE = Inr chunks \<and> encode env chunks = Inr vs \<and>
           s' = \<lparr>doc_chunks = chunks, doc_embeddings = NdArray vs\<rparr>"
      then obtain t chunks vs where
        "split_text t CHUNK_SIZE = Inr chunks" "encode env chunks = Inr vs"
        "s' = \<lparr>doc_chunks = chunks, doc_embeddings = NdArray vs\<rparr>"
        by blast
      with b Inr show thesis by (simp add: stored)
    qed
  qed
qed

lemma aligned_call:
  assumes "one_vector_each env" "aligned env s" "\<not> embedding_raised env s c"
  shows "aligned env (exec_call env s c)"
proof (cases c)
  case (GetTopChunks query k)
  with assms(2) show ?thesis by simp
next
  case (Ingest i)
  show ?thesis
  proof (cases rule: ingest_body_cases [of env s i])
    case (unchanged r)
    with assms(2) Ingest show ?thesis by (simp add: fst_ingest)
  next
    case (raised t chunks e)
    with assms(3) Ingest have "s\<lparr>doc_chunks := chunks\<rparr> = s"
      by (simp add: embedding_raised_def)
    with raised assms(2) Ingest show ?thesis by (simp add: fst_ingest)
  next
    case (stored t chunks vs msg)
    from stored(2) assms(1) have "length vs = length chunks"
      by (simp add: one_vector_each_def)
    with stored Ingest show ?thesis
      by (simp add: fst_ingest aligned_def n_vectors_def)
  qed
qed

lemma aligned_calls:
  "one_vector_each env \<Longrightarrow> aligned env s \<Longrightarrow> \<not> embedding_raised_in env s cs \<Longrightarrow>
   aligned env (exec_calls env s cs)"
proof (induction cs arbitrary: s)
  case Nil
  then show ?case by simp
next
  case (Cons c cs)
  from Cons.prems have "aligned env (exec_call env s c)"
    by (intro aligned_call) simp_all
  with Cons.prems show ?case
    by (simp add: Cons.IH)
qed

lemma one_vector_each_letter: "one_vector_each (sample_env letter_encode)"
  by (auto simp: one_vector_each_def sample_env_def letter_encode_def split: if_splits)

lemmas text_eval = ingest_from_text_def ingest_from_text_body_def try_except_def chunk_and_embed_def
  CHUNK_SIZE_def split_text_eval sample_env_def letter_encode_def mixed_encode_def letter_vec_def
  init_store_def one_chunk_def str_nat.simps check_mark_def cross_mark_def

lemmas entry_eval = ingest_from_pdf_def ingest_from_pdf_body_def extract_pdf_text_def
  ingest_from_website_def ingest_from_website_body_def
  ingest_from_youtube_def ingest_from_youtube_body_def text_eval







lemma split_ws_repeat:
  assumes "is_word w"
  shows "split_ws [] (concat (replicate n (w @ [32])) @ rest) = replicate n w @ split_ws [] rest"
proof (induction n)
  case 0
  show ?case by simp
next
  case (Suc n)
  let ?R = "concat (replicate n (w @ [32])) @ rest"
  have "split_ws [] (w @ 32 # ?R) = split_ws ([] @ w) (32 # ?R)"
    using assms by (intro split_ws_nospace) (simp add: is_word_def)
  also have "\<dots> = w # split_ws [] ?R"
    using assms by (simp add: is_word_def py_isspace_def)
  finally show ?case
    using Suc by simp
qed

lemma py_split_long_text: "py_split long_text = replicate 300 (py ''a'') @ [py ''b'']"
proof -
  have "is_word (py ''a'')"
    by (simp add: is_word_def py_def py_isspace_def)
  from split_ws_repeat [OF this, of 300 "py ''b''"] show ?thesis
    by (simp add: py_split_def long_text_def py_def py_isspace_def)
qed

lemma split_long_text:
  "split_text long_text CHUNK_SIZE = Inr [first_chunk, py ''b'']"
proof -
  have "n_chunks 301 300 = 2"
    by (simp add: n_chunks_def)
  moreover have "[0..<2] = [0, Suc 0]"
    by (simp add: upt_rec)
  ultimately show ?thesis
    by (simp add: split_text_pos CHUNK_SIZE_def py_split_long_text first_chunk_def)
qed

lemma set_py_join_replicate:
  "set (py_join sep (replicate n w)) \<subseteq> set w \<union> set sep"
proof (induction n)
  case 0
  show ?case by simp
next
  case (Suc n)
  then show ?case by (cases n) auto
qed

lemma set_py_join_first:
  "set w \<subseteq> set (py_join sep (replicate (Suc n) w))"
  by (cases n) auto

lemma letter_vec_first_chunk: "letter_vec first_chunk = [1, 0]"
proof -
  have "set (py ''a'') \<subseteq> set (py_join (py '' '') (replicate (Suc 299) (py ''a'')))"
    by (rule set_py_join_first)
  then have a: "97 \<in> set first_chunk"
    by (simp add: first_chunk_def py_def)
  have "set first_chunk \<subseteq> set (py ''a'') \<union> set (py '' '')"
    unfolding first_chunk_def by (rule set_py_join_replicate)
  then have "98 \<notin> set first_chunk"
    by (auto simp: py_def)
  with a show ?thesis by (simp add: letter_vec_def)
qed

lemma first_chunk_not_boom: "first_chunk \<noteq> py ''boom''"
proof
  assume "first_chunk = py ''boom''"
  then have "letter_vec first_chunk = letter_vec (py ''boom'')" by simp
  moreover have "letter_vec (py ''boom'') = [0, 1]"
    by (simp add: letter_vec_def py_def)
  ultimately show False
    by (simp add: letter_vec_first_chunk)
qed

lemma encode_long_text: "letter_encode [first_chunk, py ''b''] = Inr [[1, 0], [0, 1]]"
  using first_chunk_not_boom
  by (simp add: letter_encode_def letter_vec_first_chunk) (simp add: letter_vec_def py_def)

section \<open>Search: ranking, count, empty store and dimension\<close>




text \<open>
  C9, as the code has it. On a populated store of \<open>n\<close> chunks that has one vector for
  each chunk, and for \<open>k \<ge> 0\<close>, \<open>get_top_chunks\<close> returns \<open>min k n\<close> chunks, at distinct
  positions and in descending similarity, as one string in which a blank line
  separates them; for \<open>k = 0\<close> that is the empty string and not \<open>None\<close>.
\<close>

theorem get_top_chunks_min:
  assumes "populated s d" "encode env [query] = Inr [qv]" "length qv = d"
    "sorts (argsort env) (similarities s qv)" "0 \<le> k"
  shows "\<exists>indices.
           top_indices env (nd_rows (doc_embeddings s)) query k = Inr indices \<and>
           length indices = min (nat k) (length (doc_chunks s)) \<and>
           distinct indices \<and> list_all (\<lambda>i. i < length (doc_chunks s)) indices \<and>
           sorted (rev (map (\<lambda>i. similarities s qv ! i) indices)) \<and>
           get_top_chunks env s query k = Some (py_join [10, 10] (map (\<lambda>i. doc_chunks s ! i) indices)) \<and>
           (k = 0 \<longrightarrow> get_top_chunks env s query k = Some [])"
proof -
  let ?sims = "similarities s qv"
  let ?as = "argsort env ?sims"
  let ?n = "length (doc_chunks s)"
  let ?ix = "take (min ?n (nat k)) (rev ?as)"
  have m: "slice_bound ?n k = min ?n (nat k)"
    using assms(5) by (rule slice_bound_nonneg)
  have n: "length ?sims = ?n"
    using assms(1) by (simp add: similarities_def populated_def)
  then have len: "length ?as = ?n"
    using assms(4) by (simp add: sorts_def)
  have top: "top_indices env (nd_rows (doc_embeddings s)) query k = Inr ?ix"
    using top_indices_populated [OF assms(1-3)] len m by simp
  have res: "get_top_chunks env s query k = Some (py_join [10, 10] (map (\<lambda>i. doc_chunks s ! i) ?ix))"
    using get_top_chunks_populated [OF assms(1-4)] m by simp
  have l: "length ?ix = min (nat k) ?n"
    using len by (simp add: min.commute)
  have d: "distinct ?ix"
    using assms(4) by (simp add: sorts_def distinct_take)
  have "\<forall>i\<in>set ?as. i < ?n"
    using assms(4) n by (simp add: sorts_def list_all_iff)
  then have b: "list_all (\<lambda>i. i < ?n) ?ix"
    by (auto simp: list_all_iff dest: in_set_takeD)
  have srt: "sorted (rev (map (\<lambda>i. ?sims ! i) ?ix))"
    using assms(4) by (intro descending_prefix) (simp add: sorts_def)
  have z: "get_top_chunks env s query k = Some []" if "k = 0"
    using res that by simp
  from top l d b srt res z show ?thesis by blast
qed

text \<open>C9, witness: three chunks with \<open>k = 5\<close> and with \<open>k = 0\<close>.\<close>

theorem get_top_chunks_min_witness:
  "populated three_chunks 2 \<and>
   encode (sample_env letter_encode) [py ''b''] = Inr [[0, 1]] \<and>
   length [0, 1 :: real] = 2 \<and>
   sorts (argsort (sample_env letter_encode)) (similarities three_chunks [0, 1]) \<and>
   (0 :: int) \<le> 5 \<and>
   top_indices (sample_env letter_encode) (nd_rows (doc_embeddings three_chunks)) (py ''b'') 5 = Inr [2, 1, 0] \<and>
   length [2, 1, 0 :: nat] = min (nat 5) (length (doc_chunks three_chunks)) \<and>
   get_top_chunks (sample_env letter_encode) three_chunks (py ''b'') 5 =
     Some (py ''b'' @ [10, 10] @ py ''aa'' @ [10, 10] @ py ''a'') \<and>
   get_top_chunks (sample_env letter_encode) three_chunks (py ''b'') 0 = Some []"
proof -
  have p: "populated three_chunks 2"
    by (simp add: search_eval)
  have e: "encode (sample_env letter_encode) [py ''b''] = Inr [[0, 1]]"
    by (simp add: search_eval)
  have q: "length [0, 1 :: real] = 2"
    by simp
  have v: "similarities three_chunks [0, 1] = [0, 0, 1]"
    by (simp add: search_eval)
  have a: "sorts (argsort (sample_env letter_encode)) (similarities three_chunks [0, 1])"
    unfolding v by (simp add: search_eval)
  have t: "top_indices (sample_env letter_encode) (nd_rows (doc_embeddings three_chunks)) (py ''b'') 5 = Inr [2, 1, 0]"
    by (simp add: search_eval)
  have k5: "(0 :: int) \<le> 5" and k0: "(0 :: int) \<le> 0"
    by simp_all
  from get_top_chunks_min [OF p e q a k5] obtain indices where
    i1: "top_indices (sample_env letter_encode) (nd_rows (doc_embeddings three_chunks)) (py ''b'') 5 =
           Inr indices" and
    i2: "length indices = min (nat 5) (length (doc_chunks three_chunks))" and
    i3: "get_top_chunks (sample_env letter_encode) three_chunks (py ''b'') 5 =
           Some (py_join [10, 10] (map (\<lambda>i. doc_chunks three_chunks ! i) indices))"
    by blast
  from i1 t have ix: "indices = [2, 1, 0]"
    by simp
  from i2 ix have c: "length [2, 1, 0 :: nat] = min (nat 5) (length (doc_chunks three_chunks))"
    by simp
  from i3 ix have r: "get_top_chunks (sample_env letter_encode) three_chunks (py ''b'') 5 =
     Some (py ''b'' @ [10, 10] @ py ''aa'' @ [10, 10] @ py ''a'')"
    by (simp add: three_chunks_def)
  from get_top_chunks_min [OF p e q a k0]
  have "get_top_chunks (sample_env letter_encode) three_chunks (py ''b'') 0 = Some []"
    by blast
  with p e q a t c r show ?thesis by simp
qed

text \<open>
  C9, counterexample: a text of 301 words is ingested as two chunks, then a text for
  which the embedder raises; the store has the one chunk of the second text and the
  two vectors of the first. For the query \<open>b\<close> and \<open>k = 1\<close> the best index is 1, which
  has no chunk and is skipped: with \<open>n = 1\<close> and \<open>k = 1\<close> no chunk is returned.
\<close>

theorem get_top_chunks_min_counterexample:
  "exec_calls (sample_env letter_encode) init_store
     [Ingest (FromText long_text), Ingest (FromText (py ''boom''))] = two_rows_one_chunk \<and>
   doc_chunks two_rows_one_chunk = [py ''boom''] \<and>
   doc_embeddings two_rows_one_chunk = NdArray [[1, 0], [0, 1]] \<and>
   encode (sample_env letter_encode) [py ''b''] = Inr [[0, 1]] \<and>
   top_indices (sample_env letter_encode) (nd_rows (doc_embeddings two_rows_one_chunk))
     (py ''b'') 1 = Inr [1] \<and>
   get_top_chunks (sample_env letter_encode) two_rows_one_chunk (py ''b'') 1 = Some []"
proof -
  have a: "fst (ingest_from_text (sample_env letter_encode) init_store long_text) =
      \<lparr>doc_chunks = [first_chunk, py ''b''], doc_embeddings = NdArray [[1, 0], [0, 1]]\<rparr>"
    using encode_long_text
    by (simp add: ingest_from_text_def ingest_from_text_body_def try_except_def chunk_and_embed_def
        split_long_text sample_env_def init_store_def)
  have b: "fst (ingest_from_text (sample_env letter_encode)
      \<lparr>doc_chunks = [first_chunk, py ''b''], doc_embeddings = NdArray [[1, 0], [0, 1]]\<rparr>
      (py ''boom'')) = two_rows_one_chunk"
    by (simp add: text_eval two_rows_one_chunk_def)
  have r: "exec_calls (sample_env letter_encode) init_store
     [Ingest (FromText long_text), Ingest (FromText (py ''boom''))] = two_rows_one_chunk"
    by (simp add: a b)
  have e: "encode (sample_env letter_encode) [py ''b''] = Inr [[0, 1]]"
    by (simp add: search_eval)
  have t: "top_indices (sample_env letter_encode) (nd_rows (doc_embeddings two_rows_one_chunk))
     (py ''b'') 1 = Inr [1]"
    by (simp add: search_eval two_rows_one_chunk_def)
  have c: "get_top_chunks (sample_env letter_encode) two_rows_one_chunk (py ''b'') 1 = Some []"
    by (simp add: search_eval two_rows_one_chunk_def)
  from r e t c show ?thesis
    by (simp add: two_rows_one_chunk_def)
qed

text \<open>
  C4, as the code has it. When the query vector has another dimension than the stored
  vectors, \<open>cosine_similarity\<close> raises \<open>ValueError\<close>; the handler of \<open>get_top_chunks\<close>
  catches it and the result is \<open>None\<close>, the value also returned for an empty store.
  No score and no chunk is returned, and no error reaches the caller.
\<close>

theorem get_top_chunks_mismatch:
  assumes "populated s d" "encode env [query] = Inr [qv]" "length qv \<noteq> d"
  shows "(\<exists>m. cosine_similarity [qv] (nd_rows (doc_embeddings s)) = Inl (ValueError m)) \<and>
         (\<exists>m. top_indices env (nd_rows (doc_embeddings s)) query k = Inl (ValueError m)) \<and>
         get_top_chunks env s query k = None"
proof -
  let ?Y = "nd_rows (doc_embeddings s)"
  have c: "\<exists>m. cosine_similarity [qv] ?Y = Inl (ValueError m)"
    using assms(3) populated_rows [OF assms(1)]
    by (simp add: cosine_similarity_def ncols_def)
  then obtain m where m: "cosine_similarity [qv] ?Y = Inl (ValueError m)" ..
  then have t: "top_indices env ?Y query k = Inl (ValueError m)"
    using assms(2) by (simp add: top_indices_def)
  then have "get_top_chunks env s query k = None"
    by (simp add: get_top_chunks_def)
  with c t show ?thesis by blast
qed

text \<open>C4, witness: a query embedded into three dimensions on a store of two.\<close>

theorem get_top_chunks_mismatch_witness:
  "populated three_chunks 2 \<and>
   encode (sample_env mixed_encode) [py ''z''] = Inr [[0, 0, 1]] \<and>
   length [0, 0, 1 :: real] \<noteq> 2 \<and>
   get_top_chunks (sample_env mixed_encode) three_chunks (py ''z'') 3 = None"
proof -
  have p: "populated three_chunks 2"
    by (simp add: search_eval)
  have e: "encode (sample_env mixed_encode) [py ''z''] = Inr [[0, 0, 1]]"
    by (simp add: search_eval)
  have q: "length [0, 0, 1 :: real] \<noteq> 2"
    by simp
  from get_top_chunks_mismatch [OF p e q, of 3] p e q show ?thesis
    by blast
qed

text \<open>
  C4, counterexample: the result on the mismatched query is \<open>None\<close>, as it is on
  the initial, empty store: the caller cannot tell the two apart.
\<close>

theorem get_top_chunks_mismatch_counterexample:
  "populated three_chunks 2 \<and>
   encode (sample_env mixed_encode) [py ''z''] = Inr [[0, 0, 1]] \<and>
   get_top_chunks (sample_env mixed_encode) three_chunks (py ''z'') 3 = None \<and>
   get_top_chunks (sample_env mixed_encode) init_store (py ''z'') 3 = None"
  by (simp add: search_eval)

text \<open>
  C8: on a store without chunks \<open>get_top_chunks\<close> returns \<open>None\<close>, whatever the
  query, \<open>k\<close> and the environment are.
\<close>

theorem get_top_chunks_empty:
  "doc_chunks s = [] \<Longrightarrow> get_top_chunks env s query k = None"
  by (simp add: get_top_chunks_def)

text \<open>
  C8, witness: the initial store, and the store after a text of one blank was
  ingested.
\<close>

theorem get_top_chunks_empty_witness:
  "doc_chunks init_store = [] \<and>
   get_top_chunks (sample_env letter_encode) init_store (py ''a'') 3 = None \<and>
   fst (ingest_from_text (sample_env letter_encode) init_store (py '' '')) =
     \<lparr>doc_chunks = [], doc_embeddings = NdArray []\<rparr> \<and>
   get_top_chunks (sample_env letter_encode) \<lparr>doc_chunks = [], doc_embeddings = NdArray []\<rparr> (py ''a'') 3 = None"
proof -
  have a: "doc_chunks init_store = []"
    by (simp add: init_store_def)
  have b: "fst (ingest_from_text (sample_env letter_encode) init_store (py '' '')) =
     \<lparr>doc_chunks = [], doc_embeddings = NdArray []\<rparr>"
    by (simp add: entry_eval)
  have c: "doc_chunks \<lparr>doc_chunks = [], doc_embeddings = NdArray []\<rparr> = []"
    by simp
  from get_top_chunks_empty [OF a] get_top_chunks_empty [OF c] a b show ?thesis
    by simp
qed

section \<open>Ingestion: failure and the alignment of chunks and vectors\<close>




text \<open>
  C3, as the code has it. With an embedder that returns one vector for each text,
  after every sequence of ingestion and search calls from the initial store in which
  no embedding step raised, there are as many vectors as chunks, and the vectors,
  once there is an array, are the embedder's output for the chunks, position by
  position.
\<close>

theorem calls_keep_alignment:
  assumes "one_vector_each env" "\<not> embedding_raised_in env init_store cs"
  shows "length (doc_chunks (exec_calls env init_store cs)) = n_vectors (exec_calls env init_store cs) \<and>
         (doc_embeddings (exec_calls env init_store cs) = PyList \<or>
          encode env (doc_chunks (exec_calls env init_store cs)) =
            Inr (nd_rows (doc_embeddings (exec_calls env init_store cs))))"
  using aligned_calls [OF assms(1) aligned_init assms(2)]
  by (simp add: aligned_def)

text \<open>
  C3, witness: a text, a search, a PDF that cannot be read and a transcript; the
  reader raises, the embedder does not.
\<close>

theorem calls_keep_alignment_witness:
  "one_vector_each (sample_env letter_encode) \<and>
   embedding_raised_in (sample_env letter_encode) init_store
     [Ingest (FromText (py ''a b'')), GetTopChunks (py ''a'') 3, Ingest (FromPdf []),
      Ingest (FromYoutube (py ''watch?v=b''))] = False \<and>
   exec_calls (sample_env letter_encode) init_store
     [Ingest (FromText (py ''a b'')), GetTopChunks (py ''a'') 3, Ingest (FromPdf []),
      Ingest (FromYoutube (py ''watch?v=b''))] =
     \<lparr>doc_chunks = [py ''b''], doc_embeddings = NdArray [[0, 1]]\<rparr> \<and>
   length (doc_chunks \<lparr>doc_chunks = [py ''b''], doc_embeddings = NdArray [[0, 1]]\<rparr>) =
     n_vectors \<lparr>doc_chunks = [py ''b''], doc_embeddings = NdArray [[0, 1]]\<rparr> \<and>
   encode (sample_env letter_encode) [py ''b''] = Inr [[0, 1]]"
proof -
  let ?cs = "[Ingest (FromText (py ''a b'')), GetTopChunks (py ''a'') 3, Ingest (FromPdf []),
      Ingest (FromYoutube (py ''watch?v=b''))]"
  have r: "\<not> embedding_raised_in (sample_env letter_encode) init_store ?cs"
    by (simp add: embedding_raised_def entry_eval)
  have x: "exec_calls (sample_env letter_encode) init_store ?cs =
     \<lparr>doc_chunks = [py ''b''], doc_embeddings = NdArray [[0, 1]]\<rparr>"
    by (simp add: entry_eval)
  from calls_keep_alignment [OF one_vector_each_letter r] r show ?thesis
    unfolding x using one_vector_each_letter by simp
qed

text \<open>
  C3, counterexample: after one call whose embedding step raises, the store has one
  chunk and no vector; after a successful call and a failed one it has the chunk of
  the second text with the vector of the first, and a search returns that chunk.
\<close>

theorem calls_break_alignment_counterexample:
  "exec_calls (sample_env letter_encode) init_store [Ingest (FromText (py ''boom''))] =
     \<lparr>doc_chunks = [py ''boom''], doc_embeddings = PyList\<rparr> \<and>
   length (doc_chunks \<lparr>doc_chunks = [py ''boom''], doc_embeddings = PyList\<rparr>) = 1 \<and>
   n_vectors \<lparr>doc_chunks = [py ''boom''], doc_embeddings = PyList\<rparr> = 0 \<and>
   exec_calls (sample_env letter_encode) init_store
     [Ingest (FromText (py ''a'')), Ingest (FromText (py ''boom''))] =
     \<lparr>doc_chunks = [py ''boom''], doc_embeddings = NdArray [[1, 0]]\<rparr> \<and>
   encode (sample_env letter_encode) [py ''boom''] = Inl (OtherException (py ''model unavailable'')) \<and>
   get_top_chunks (sample_env letter_encode)
     \<lparr>doc_chunks = [py ''boom''], doc_embeddings = NdArray [[1, 0]]\<rparr> (py ''a'') 3 = Some (py ''boom'')"
proof -
  have a: "exec_calls (sample_env letter_encode) init_store [Ingest (FromText (py ''boom''))] =
     \<lparr>doc_chunks = [py ''boom''], doc_embeddings = PyList\<rparr>"
    by (simp add: text_eval)
  have b: "exec_calls (sample_env letter_encode) init_store
     [Ingest (FromText (py ''a'')), Ingest (FromText (py ''boom''))] =
     \<lparr>doc_chunks = [py ''boom''], doc_embeddings = NdArray [[1, 0]]\<rparr>"
    by (simp add: text_eval)
  have c: "encode (sample_env letter_encode) [py ''boom''] = Inl (OtherException (py ''model unavailable''))"
    by (simp add: sample_env_def letter_encode_def)
  have d: "get_top_chunks (sample_env letter_encode)
     \<lparr>doc_chunks = [py ''boom''], doc_embeddings = NdArray [[1, 0]]\<rparr> (py ''a'') 3 = Some (py ''boom'')"
    by (simp add: search_eval)
  from a b c d show ?thesis by (simp add: n_vectors_def)
qed

section \<open>Ingestion: the status returned\<close>



end
